theory Spec2Isabelle
  imports Main "HOL-Library.Sublist" "HOL-Library.AList" "HOL-Library.Monad_Syntax"
begin

section \<open>Texts and the string operations the converter uses\<close>

text \<open>
  The converter \<^verbatim>\<open>md2pdf.py\<close> works on Python \<^verbatim>\<open>str\<close> values, sequences of code points.
  A text is modelled as a HOL \<^typ>\<open>string\<close>, a list of characters with code points
  \<open>0 .. 255\<close>; the development therefore speaks about texts of that range. On it the
  character classes of Python 3 are the following finite tables:
  \<^item> \<^verbatim>\<open>str.isspace\<close>, also the class \<^verbatim>\<open>\s\<close> and what \<^verbatim>\<open>str.strip()\<close> removes:
    code points 9 to 13, 28 to 31, 32, 133 and 160;
  \<^item> \<^verbatim>\<open>\d\<close>: the ten digits 0 to 9;
  \<^item> \<^verbatim>\<open>\w\<close>: letters, digits, numeric characters and the underscore;
  \<^item> \<^verbatim>\<open>str.lower\<close>: adds 32 to A..Z, to 192..214 and to 216..222.
  The two ranges the source names above 255 (Greek letters in the math pattern, CJK
  ideographs in the slug pattern) are kept as tests on the code point.
\<close>

definition isspace :: "char \<Rightarrow> bool" where
  "isspace c \<longleftrightarrow> (of_char c :: nat) \<in> {9, 10, 11, 12, 13, 28, 29, 30, 31, 32, 133, 160}"

definition isdigit :: "char \<Rightarrow> bool" where
  "isdigit c \<longleftrightarrow> 48 \<le> (of_char c :: nat) \<and> (of_char c :: nat) \<le> 57"

definition lstrip :: "string \<Rightarrow> string" where
  "lstrip s = dropWhile isspace s"

definition rstrip :: "string \<Rightarrow> string" where
  "rstrip s = rev (dropWhile isspace (rev s))"

text \<open>\<^verbatim>\<open>s.strip()\<close>\<close>

definition strip :: "string \<Rightarrow> string" where
  "strip s = rstrip (lstrip s)"

text \<open>\<^verbatim>\<open>s.startswith(p)\<close>, \<^verbatim>\<open>s.endswith(p)\<close> and \<^verbatim>\<open>p in s\<close>\<close>

definition startswith :: "string \<Rightarrow> string \<Rightarrow> bool" where
  "startswith s p \<longleftrightarrow> take (length p) s = p"

definition endswith :: "string \<Rightarrow> string \<Rightarrow> bool" where
  "endswith s p \<longleftrightarrow> startswith (rev s) (rev p)"

fun contains :: "string \<Rightarrow> string \<Rightarrow> bool" where
  "contains [] p = (p = [])"
| "contains (c # cs) p = (startswith (c # cs) p \<or> contains cs p)"

text \<open>
  \<^verbatim>\<open>s.replace(old, new)\<close>: every occurrence of \<open>old\<close>, found from the left and not
  overlapping, becomes \<open>new\<close>. With an empty \<open>old\<close> Python puts \<open>new\<close> before every
  character and at the end.
\<close>

function replace :: "string \<Rightarrow> string \<Rightarrow> string \<Rightarrow> string" where
  "replace old new [] = (if old = [] then new else [])"
| "replace old new (c # cs) =
     (if old = [] then new @ c # replace old new cs
      else if startswith (c # cs) old then new @ replace old new (drop (length old) (c # cs))
      else c # replace old new cs)"
  by pat_completeness auto
termination
  by (relation "measure (\<lambda>(old, new, s). length s)") (auto simp: startswith_def)

declare replace.simps [simp del]

text \<open>\<^verbatim>\<open>s.split(d)\<close> for a one-character separator: never an empty list.\<close>

fun split :: "char \<Rightarrow> string \<Rightarrow> string list" where
  "split d [] = [[]]"
| "split d (c # cs) =
     (if c = d then [] # split d cs
      else (case split d cs of [] \<Rightarrow> [[c]] | x # xs \<Rightarrow> (c # x) # xs))"

text \<open>\<^verbatim>\<open>sep.join(xs)\<close>\<close>

fun join :: "string \<Rightarrow> string list \<Rightarrow> string" where
  "join sep [] = []"
| "join sep [x] = x"
| "join sep (x # y # ys) = x @ sep @ join sep (y # ys)"

text \<open>
  The slice \<^verbatim>\<open>xs[a:-b]\<close> with \<open>b > 0\<close>: Python clamps both ends, so a list that is too
  short gives the empty list and nothing is raised.
\<close>

definition slice_inner :: "nat \<Rightarrow> nat \<Rightarrow> 'a list \<Rightarrow> 'a list" where
  "slice_inner a b xs = drop a (take (length xs - b) xs)"

text \<open>\<^verbatim>\<open>str(n)\<close> for a natural number\<close>

fun str_nat :: "nat \<Rightarrow> string" where
  "str_nat n =
     (if n < 10 then [''0123456789'' ! n]
      else str_nat (n div 10) @ [''0123456789'' ! (n mod 10)])"

section \<open>HTML escaper\<close>

text \<open>
  \<^verbatim>\<open>
  def escape_html(text):
      text = text.replace('&', '&amp;')
      text = text.replace('<', '&lt;')
      text = text.replace('>', '&gt;')
      text = text.replace('"', '&quot;')
      text = text.replace("'", '&#39;')
      return text
  \<close>
\<close>

definition escape_html :: "string \<Rightarrow> string" where
  \<open>escape_html text =
     replace [CHR 0x27] ''&#39;''
       (replace ''"'' ''&quot;''
         (replace ''>'' ''&gt;''
           (replace ''<'' ''&lt;''
             (replace ''&'' ''&amp;'' text))))\<close>


text \<open>The five characters that \<^verbatim>\<open>escape_html\<close> replaces.\<close>

definition special :: "char \<Rightarrow> bool" where
  \<open>special c \<longleftrightarrow> c \<in> {CHR ''&'', CHR ''<'', CHR ''>'', CHR ''"'', CHR 0x27}\<close>

section \<open>Regular-expression substitution\<close>

text \<open>
  \<^verbatim>\<open>re.sub(pattern, repl, text)\<close> scans the text from the left. A pattern is given by its
  matcher: \<open>m s\<close> is \<open>Some (g, n)\<close> when the pattern matches at the start of \<open>s\<close>, with
  groups \<open>g\<close> and a match of \<open>n\<close> characters, and \<open>None\<close> when it does not match there.
  Where the pattern matches, the replacement is emitted and the scan goes on behind the
  match; elsewhere one character is copied. No pattern of the source matches the empty
  string; for a match of length 0 the model copies one character behind the
  replacement.
\<close>

function re_sub :: "(string \<Rightarrow> ('g \<times> nat) option) \<Rightarrow> ('g \<Rightarrow> string) \<Rightarrow> string \<Rightarrow> string" where
  "re_sub m repl [] = (case m [] of None \<Rightarrow> [] | Some (g, n) \<Rightarrow> repl g)"
| "re_sub m repl (c # cs) =
     (case m (c # cs) of
        None \<Rightarrow> c # re_sub m repl cs
      | Some (g, n) \<Rightarrow>
          if n = 0 then repl g @ c # re_sub m repl cs
          else repl g @ re_sub m repl (drop n (c # cs)))"
  by pat_completeness auto
termination
  by (relation "measure (\<lambda>(m, repl, s). length s)") auto

text \<open>
  The same scan with a callable replacement that reads and updates a state, as
  \<^verbatim>\<open>protect_math\<close> does through its \<^verbatim>\<open>nonlocal\<close> counter and the placeholder dictionary.
\<close>

function re_sub_fn ::
  "(string \<Rightarrow> ('g \<times> nat) option) \<Rightarrow> ('st \<Rightarrow> 'g \<Rightarrow> string \<times> 'st) \<Rightarrow> 'st \<Rightarrow> string \<Rightarrow> string \<times> 'st"
where
  "re_sub_fn m f st [] = (case m [] of None \<Rightarrow> ([], st) | Some (g, n) \<Rightarrow> f st g)"
| "re_sub_fn m f st (c # cs) =
     (case m (c # cs) of
        None \<Rightarrow> (case re_sub_fn m f st cs of (out, st') \<Rightarrow> (c # out, st'))
      | Some (g, n) \<Rightarrow>
          (case f st g of (r, st1) \<Rightarrow>
             if n = 0 then (case re_sub_fn m f st1 cs of (out, st') \<Rightarrow> (r @ c # out, st'))
             else (case re_sub_fn m f st1 (drop n (c # cs)) of (out, st') \<Rightarrow> (r @ out, st'))))"
  by pat_completeness auto
termination
  by (relation "measure (\<lambda>(m, f, st, s). length s)") auto

declare re_sub.simps [simp del] re_sub_fn.simps [simp del]

subsection \<open>The patterns of the inline formatter\<close>

text \<open>
  \<^verbatim>\<open>d([^x]+)d\<close> where the delimiter \<open>d\<close> consists of the character \<open>x\<close>:
  \<^verbatim>\<open>\*\*([^*]+)\*\*\<close>, \<^verbatim>\<open>\*([^*]+)\*\<close> and the backtick pattern. The greedy group takes
  the whole run of characters other than \<open>x\<close>; giving some of it back never helps,
  since the closing delimiter starts with \<open>x\<close>.
\<close>

definition span_match :: "string \<Rightarrow> char \<Rightarrow> string \<Rightarrow> (string \<times> nat) option" where
  "span_match d x s =
     (let body = takeWhile (\<lambda>c. c \<noteq> x) (drop (length d) s);
          rest = dropWhile (\<lambda>c. c \<noteq> x) (drop (length d) s)
      in if startswith s d \<and> body \<noteq> [] \<and> startswith rest d
         then Some (body, length d + length body + length d)
         else None)"

text \<open>
  \<^verbatim>\<open>\[([^\]]*)\]\(([^)]+)\)\<close>: the common part of the image and the link pattern.
  Group 1 is the run up to the first \<^verbatim>\<open>]\<close>, which \<^verbatim>\<open>(\<close> must follow; group 2 is the
  non-empty run up to the first \<^verbatim>\<open>)\<close>.
\<close>

definition bracket_pair :: "string \<Rightarrow> ((string \<times> string) \<times> nat) option" where
  "bracket_pair s =
     (let text = takeWhile (\<lambda>c. c \<noteq> CHR '']'') (drop 1 s);
          r1 = dropWhile (\<lambda>c. c \<noteq> CHR '']'') (drop 1 s);
          url = takeWhile (\<lambda>c. c \<noteq> CHR '')'') (drop 2 r1);
          r2 = dropWhile (\<lambda>c. c \<noteq> CHR '')'') (drop 2 r1)
      in if startswith s ''['' \<and> startswith r1 '']('' \<and> url \<noteq> [] \<and> r2 \<noteq> []
         then Some ((text, url), 1 + length text + 2 + length url + 1)
         else None)"

text \<open>\<^verbatim>\<open>!\[([^\]]*)\]\(([^)]+)\)\<close>\<close>

definition image_match :: "string \<Rightarrow> ((string \<times> string) \<times> nat) option" where
  "image_match s =
     (if startswith s ''!'' then
        (case bracket_pair (drop 1 s) of
           None \<Rightarrow> None
         | Some (g, n) \<Rightarrow> Some (g, 1 + n))
      else None)"

text \<open>\<^verbatim>\<open>\[([^\]]+)\]\(([^)]+)\)\<close>\<close>

definition link_match :: "string \<Rightarrow> ((string \<times> string) \<times> nat) option" where
  "link_match s =
     (case bracket_pair s of
        None \<Rightarrow> None
      | Some (g, n) \<Rightarrow> if fst g \<noteq> [] then Some (g, n) else None)"

text \<open>
  \<^verbatim>\<open>\$([^$]*(?:[+\-*/=<>^_{}\\]|\\[a-zA-Z]+|[alpha-omega Alpha-Omega])[^$]*)\$\<close>, the Greek
  ranges being U+03B1..U+03C9 and U+0391..U+03A9. Group 1 is the whole text between a
  dollar and the next one; the middle part asks for one character of the class or a Greek
  letter in it (the second alternative starts with a backslash, which the class holds).
\<close>

definition is_greek :: "char \<Rightarrow> bool" where
  "is_greek c \<longleftrightarrow>
     (945 \<le> (of_char c :: nat) \<and> (of_char c :: nat) \<le> 969) \<or>
     (913 \<le> (of_char c :: nat) \<and> (of_char c :: nat) \<le> 937)"

definition math_mark :: "char \<Rightarrow> bool" where
  "math_mark c \<longleftrightarrow> c \<in> set ''+-*/=<>^_{}'' \<or> c = CHR 0x5C \<or> is_greek c"

definition math_match :: "string \<Rightarrow> (string \<times> nat) option" where
  "math_match s =
     (let body = takeWhile (\<lambda>c. c \<noteq> CHR ''$'') (drop 1 s);
          rest = dropWhile (\<lambda>c. c \<noteq> CHR ''$'') (drop 1 s)
      in if startswith s ''$'' \<and> rest \<noteq> [] \<and> list_ex math_mark body
         then Some (body, 1 + length body + 1)
         else None)"

section \<open>Inline formatter\<close>

text \<open>
  The state of \<^verbatim>\<open>protect_math\<close>: \<^verbatim>\<open>math_counter\<close> and the dictionary
  \<^verbatim>\<open>math_placeholders\<close>, an association list in insertion order.
  \<^verbatim>\<open>
  def protect_math(match):
      nonlocal math_counter
      placeholder = f'__MATH_PLACEHOLDER_{math_counter}__'
      math_content = match.group(1)
      math_placeholders[placeholder] = f'\\({math_content}\\)'
      math_counter += 1
      return placeholder
  \<close>
\<close>

type_synonym math_state = "nat \<times> (string \<times> string) list"

definition placeholder_of :: "nat \<Rightarrow> string" where
  "placeholder_of n = ''__MATH_PLACEHOLDER_'' @ str_nat n @ ''__''"

definition protect_math :: "math_state \<Rightarrow> string \<Rightarrow> string \<times> math_state" where
  "protect_math st math_content =
     (case st of (math_counter, math_placeholders) \<Rightarrow>
        (placeholder_of math_counter,
         (math_counter + 1,
          AList.update (placeholder_of math_counter)
            ([CHR 0x5C, CHR ''(''] @ math_content @ [CHR 0x5C, CHR '')''])
            math_placeholders)))"

definition bold :: "string \<Rightarrow> string" where
  "bold = re_sub (span_match ''**'' CHR ''*'') (\<lambda>g. ''<strong>'' @ g @ ''</strong>'')"

definition italic :: "string \<Rightarrow> string" where
  "italic = re_sub (span_match ''*'' CHR ''*'') (\<lambda>g. ''<em>'' @ g @ ''</em>'')"

definition inline_code :: "string \<Rightarrow> string" where
  "inline_code = re_sub (span_match ''`'' CHR ''`'') (\<lambda>g. ''<code>'' @ g @ ''</code>'')"

definition image_style :: string where
  "image_style = ''max-width: 100%; height: auto; display: block; margin: 20px auto; border: 1px solid #ddd; border-radius: 5px; box-shadow: 0 2px 8px rgba(0,0,0,0.1);''"

definition image :: "string \<Rightarrow> string" where
  \<open>image = re_sub image_match
     (\<lambda>(alt, url). ''<img src="'' @ url @ ''" alt="'' @ alt @ ''" style="'' @ image_style @ ''" />'')\<close>

definition link :: "string \<Rightarrow> string" where
  \<open>link = re_sub link_match (\<lambda>(text, url). ''<a href="'' @ url @ ''">'' @ text @ ''</a>'')\<close>

text \<open>
  \<^verbatim>\<open>
  for placeholder, math_content in math_placeholders.items():
      text = text.replace(placeholder, math_content)
  \<close>
\<close>

definition restore_math :: "(string \<times> string) list \<Rightarrow> string \<Rightarrow> string" where
  "restore_math math_placeholders text =
     foldl (\<lambda>t (placeholder, math_content). replace placeholder math_content t)
       text math_placeholders"

text \<open>The text after the code-span substitution, with the state of the math protection.\<close>

definition inline_upto_code :: "string \<Rightarrow> string \<times> math_state" where
  "inline_upto_code text =
     (case re_sub_fn math_match protect_math (0, []) text of
        (t, st) \<Rightarrow> (inline_code (italic (bold t)), st))"

definition process_inline_formatting :: "string \<Rightarrow> string" where
  "process_inline_formatting text =
     (case inline_upto_code text of
        (t, (math_counter, math_placeholders)) \<Rightarrow>
          restore_math math_placeholders (link (image t)))"

section \<open>Slug generator\<close>

text \<open>
  \<^verbatim>\<open>
  def generate_id(text):
      clean_text = re.sub(r'[^\w\u4e00-\u9fff]', '-', text)
      clean_text = re.sub(r'-+', '-', clean_text)
      clean_text = clean_text.strip('-')
      return clean_text.lower() if clean_text else 'heading'
  \<close>
\<close>

definition isword :: "char \<Rightarrow> bool" where
  "isword c \<longleftrightarrow>
     (let n = (of_char c :: nat) in
        (48 \<le> n \<and> n \<le> 57) \<or> (65 \<le> n \<and> n \<le> 90) \<or> n = 95 \<or> (97 \<le> n \<and> n \<le> 122) \<or>
        n = 170 \<or> n = 178 \<or> n = 179 \<or> n = 181 \<or> n = 185 \<or> n = 186 \<or>
        (188 \<le> n \<and> n \<le> 190) \<or> (192 \<le> n \<and> n \<le> 214) \<or> (216 \<le> n \<and> n \<le> 246) \<or>
        (248 \<le> n \<and> n \<le> 255))"

definition is_cjk :: "char \<Rightarrow> bool" where
  "is_cjk c \<longleftrightarrow> 0x4e00 \<le> (of_char c :: nat) \<and> (of_char c :: nat) \<le> 0x9fff"

definition lower_char :: "char \<Rightarrow> char" where
  "lower_char c =
     (let n = (of_char c :: nat) in
        if (65 \<le> n \<and> n \<le> 90) \<or> (192 \<le> n \<and> n \<le> 214) \<or> (216 \<le> n \<and> n \<le> 222)
        then char_of (n + 32) else c)"

definition lower :: "string \<Rightarrow> string" where
  "lower s = map lower_char s"

definition non_word_match :: "string \<Rightarrow> (unit \<times> nat) option" where
  "non_word_match s =
     (case s of [] \<Rightarrow> None | c # cs \<Rightarrow> if isword c \<or> is_cjk c then None else Some ((), 1))"

definition hyphens_match :: "string \<Rightarrow> (unit \<times> nat) option" where
  "hyphens_match s =
     (if startswith s ''-'' then Some ((), length (takeWhile (\<lambda>c. c = CHR ''-'') s)) else None)"

definition strip_chars :: "char \<Rightarrow> string \<Rightarrow> string" where
  "strip_chars x s = rev (dropWhile (\<lambda>c. c = x) (rev (dropWhile (\<lambda>c. c = x) s)))"

definition generate_id :: "string \<Rightarrow> string" where
  "generate_id text =
     (let clean_text = re_sub non_word_match (\<lambda>u. ''-'') text;
          clean_text = re_sub hyphens_match (\<lambda>u. ''-'') clean_text;
          clean_text = strip_chars CHR ''-'' clean_text
      in if clean_text \<noteq> [] then lower clean_text else ''heading'')"


section \<open>Block classifier\<close>

text \<open>
  A subscript \<^verbatim>\<open>xs[i]\<close> with \<open>i \<ge> 0\<close> raises \<^verbatim>\<open>IndexError\<close> out of range. It is the only
  operation of \<^verbatim>\<open>convert_md_to_html_body\<close> that can raise (slices, \<^verbatim>\<open>strip\<close>, \<^verbatim>\<open>split\<close>
  and the substitutions cannot), so a result of the classifier is an \<open>option\<close>: \<open>None\<close>
  stands for the exception.
\<close>

definition line_at :: "'a list \<Rightarrow> nat \<Rightarrow> 'a option" where
  "line_at xs i = (if i < length xs then Some (xs ! i) else None)"

text \<open>
  The local variables of \<^verbatim>\<open>convert_md_to_html_body\<close> that live across iterations of its
  main loop: the index \<^verbatim>\<open>i\<close>, the two mode flags and the output list.
  (\<^verbatim>\<open>code_language\<close> is read only in the branch that assigns it.)
\<close>

record state =
  cursor :: nat
  in_code_block :: bool
  in_math_block :: bool
  html_lines :: "string list"

subsection \<open>The tests on a line\<close>

text \<open>\<^verbatim>\<open>line.strip().startswith('- ') or line.strip().startswith('* ')\<close>\<close>

definition ul_item :: "string \<Rightarrow> bool" where
  "ul_item line \<longleftrightarrow> startswith (strip line) ''- '' \<or> startswith (strip line) ''* ''"

text \<open>\<^verbatim>\<open>'|' in line and line.strip().startswith('|') and line.strip().endswith('|')\<close>\<close>

definition table_start :: "string \<Rightarrow> bool" where
  "table_start line \<longleftrightarrow>
     contains line ''|'' \<and> startswith (strip line) ''|'' \<and> endswith (strip line) ''|''"

text \<open>
  The pattern \<^verbatim>\<open>^\d+\.\s\<close>, which the source always applies to a stripped line:
  \<^verbatim>\<open>re.match\<close> tests it, \<^verbatim>\<open>re.sub(r'^\d+\.\s', '', s)\<close> removes the one match at the start.
\<close>

definition ol_match :: "string \<Rightarrow> (unit \<times> nat) option" where
  "ol_match s =
     (let digits = takeWhile isdigit s
      in if digits \<noteq> [] \<and>
            (case dropWhile isdigit s of
               c1 # c2 # rest \<Rightarrow> c1 = CHR ''.'' \<and> isspace c2
             | _ \<Rightarrow> False)
         then Some ((), length digits + 2)
         else None)"

definition ol_item :: "string \<Rightarrow> bool" where
  "ol_item s \<longleftrightarrow> ol_match s \<noteq> None"

definition ol_strip_marker :: "string \<Rightarrow> string" where
  "ol_strip_marker s = (case ol_match s of None \<Rightarrow> s | Some (u, n) \<Rightarrow> drop n s)"

text \<open>The condition of the paragraph loop, for one line.\<close>

definition paragraph_line :: "string \<Rightarrow> bool" where
  "paragraph_line line \<longleftrightarrow>
     strip line \<noteq> [] \<and> \<not> startswith line ''#'' \<and>
     \<not> startswith (strip line) ''- '' \<and> \<not> startswith (strip line) ''* '' \<and>
     \<not> ol_item (strip line) \<and> \<not> startswith (strip line) ''>'' \<and>
     \<not> startswith line ''```''"


subsection \<open>The inner loops\<close>

text \<open>
  Four inner loops have the shape
  \<^verbatim>\<open>while i < len(lines) and P(lines[i]): acc.append(f(lines[i])); i += 1\<close>.
\<close>

function while_lines ::
  "(string \<Rightarrow> bool) \<Rightarrow> (string \<Rightarrow> 'a) \<Rightarrow> string list \<Rightarrow> nat \<Rightarrow> 'a list \<Rightarrow> (nat \<times> 'a list) option"
where
  "while_lines P f lines i acc =
     (if i < length lines then
        do {
          line \<leftarrow> line_at lines i;
          if P line then while_lines P f lines (i + 1) (acc @ [f line])
          else Some (i, acc)
        }
      else Some (i, acc))"
  by pat_completeness auto
termination
  by (relation "measure (\<lambda>(P, f, lines, i, acc). length lines - i)") auto

declare while_lines.simps [simp del]

text \<open>
  The content loop of one ordered-list item:
  \<^verbatim>\<open>
  while i < len(lines):
      next_line = lines[i]
      if next_line.strip() == '':
          i += 1
          continue
      elif next_line.startswith('   ') or next_line.startswith('\t'):
          content = next_line.strip()
          if content.startswith('$$') and content.endswith('$$'):
              math_content = content[2:-2]
              item_content.append(f'<div class="math-block">$${math_content}$$</div>')
          else:
              item_content.append(process_inline_formatting(content))
          i += 1
      else:
          break
  \<close>
\<close>

definition ol_continuation :: "string \<Rightarrow> string" where
  \<open>ol_continuation content =
     (if startswith content ''$$'' \<and> endswith content ''$$''
      then ''<div class="math-block">$$'' @ slice_inner 2 2 content @ ''$$</div>''
      else process_inline_formatting content)\<close>

function ol_item_loop :: "string list \<Rightarrow> nat \<Rightarrow> string list \<Rightarrow> (nat \<times> string list) option" where
  "ol_item_loop lines i item_content =
     (if i < length lines then
        do {
          next_line \<leftarrow> line_at lines i;
          if strip next_line = [] then ol_item_loop lines (i + 1) item_content
          else if startswith next_line ''   '' \<or> startswith next_line [CHR 0x09] then
            ol_item_loop lines (i + 1) (item_content @ [ol_continuation (strip next_line)])
          else Some (i, item_content)
        }
      else Some (i, item_content))"
  by pat_completeness auto
termination
  by (relation "measure (\<lambda>(lines, i, item_content). length lines - i)") auto

declare ol_item_loop.simps [simp del]

lemma ol_item_loop_cursor:
  "ol_item_loop lines i item_content = Some (i', item_content') \<Longrightarrow> i \<le> i'"
proof (induction lines i item_content rule: ol_item_loop.induct)
  case (1 lines i item_content)
  show ?case
  proof (cases "i < length lines")
    case True
    with "1.prems" "1.IH" show ?thesis
      by (subst (asm) ol_item_loop.simps)
         (fastforce simp: line_at_def split: if_splits)
  next
    case False
    with "1.prems" show ?thesis
      by (subst (asm) ol_item_loop.simps) simp
  qed
qed

text \<open>
  The loop of the ordered list:
  \<^verbatim>\<open>
  while i < len(lines):
      current_line = lines[i].strip()
      if re.match(r'^\d+\.\s', current_line):
          item_text = re.sub(r'^\d+\.\s', '', current_line)
          item_content = [process_inline_formatting(item_text)]
          i += 1
          ... the content loop ...
          html_lines.append(f'<li>{"".join(item_content)}</li>')
      elif current_line == '':
          i += 1
          if i < len(lines) and re.match(r'^\d+\.\s', lines[i].strip()):
              continue
          else:
              break
      else:
          break
  \<close>
\<close>

function ol_loop :: "string list \<Rightarrow> nat \<Rightarrow> string list \<Rightarrow> (nat \<times> string list) option" where
  "ol_loop lines i html =
     (if i < length lines then
        do {
          line \<leftarrow> line_at lines i;
          if ol_item (strip line) then
            do {
              (i', item_content) \<leftarrow>
                ol_item_loop lines (i + 1)
                  [process_inline_formatting (ol_strip_marker (strip line))];
              ol_loop lines i' (html @ [''<li>'' @ concat item_content @ ''</li>''])
            }
          else if strip line = [] then
            (if i + 1 < length lines then
               do {
                 line' \<leftarrow> line_at lines (i + 1);
                 if ol_item (strip line') then ol_loop lines (i + 1) html
                 else Some (i + 1, html)
               }
             else Some (i + 1, html))
          else Some (i, html)
        }
      else Some (i, html))"
  by pat_completeness auto
termination
proof (relation "measure (\<lambda>(lines, i, html). length lines - i)")
  show "wf (measure (\<lambda>(lines, i, html). length lines - i))" by simp
next
  fix lines :: "string list" and i :: nat and html :: "string list"
    and line :: string and x :: "nat \<times> string list" and i' :: nat
    and item_content :: "string list"
  assume "i < length lines"
    and "ol_item_loop lines (i + 1) [process_inline_formatting (ol_strip_marker (strip line))] = Some x"
    and "(i', item_content) = x"
  then have "i + 1 \<le> i'"
    using ol_item_loop_cursor [of lines "i + 1" _ i' item_content] by simp
  with \<open>i < length lines\<close>
  show "((lines, i', html @ [''<li>'' @ concat item_content @ ''</li>'']), lines, i, html)
          \<in> measure (\<lambda>(lines, i, html). length lines - i)"
    by simp
next
  fix lines :: "string list" and i :: nat and html :: "string list"
  assume "i + 1 < length lines"
  then show "((lines, i + 1, html), lines, i, html) \<in> measure (\<lambda>(lines, i, html). length lines - i)"
    by simp
qed

declare ol_loop.simps [simp del]


text \<open>The inner loops in closed form, and where they leave the index.\<close>

lemma while_lines_eq:
  "while_lines P f lines i acc =
     Some (i + length (takeWhile P (drop i lines)), acc @ map f (takeWhile P (drop i lines)))"
proof (induction P f lines i acc rule: while_lines.induct)
  case (1 P f lines i acc)
  show ?case
  proof (cases "i < length lines")
    case True
    then have d: "drop i lines = lines ! i # drop (i + 1) lines"
      by (simp add: Cons_nth_drop_Suc)
    show ?thesis
    proof (cases "P (lines ! i)")
      case True
      with \<open>i < length lines\<close> "1.IH" [of "lines ! i"] d show ?thesis
        by (subst while_lines.simps) (simp add: line_at_def)
    next
      case False
      with \<open>i < length lines\<close> d show ?thesis
        by (subst while_lines.simps) (simp add: line_at_def)
    qed
  next
    case False
    then show ?thesis
      by (subst while_lines.simps) simp
  qed
qed

lemma ol_item_loop_total: "\<exists>r. ol_item_loop lines i item_content = Some r"
proof (induction lines i item_content rule: ol_item_loop.induct)
  case (1 lines i item_content)
  show ?case
  proof (cases "i < length lines")
    case True
    with "1.IH" show ?thesis
      by (subst ol_item_loop.simps) (auto simp: line_at_def)
  next
    case False
    then show ?thesis
      by (subst ol_item_loop.simps) simp
  qed
qed

lemma ol_loop_total: "\<exists>r. ol_loop lines i html = Some r"
proof (induction lines i html rule: ol_loop.induct)
  case (1 lines i html)
  show ?case
  proof (cases "i < length lines")
    case False
    then show ?thesis
      by (subst ol_loop.simps) simp
  next
    case True
    note lt = True
    show ?thesis
    proof (cases "ol_item (strip (lines ! i))")
      case True
      obtain i' c where r: "ol_item_loop lines (i + 1)
          [process_inline_formatting (ol_strip_marker (strip (lines ! i)))] = Some (i', c)"
        using ol_item_loop_total by (metis surj_pair)
      from "1.IH"(1) [OF lt _ True r] lt
      obtain r' where "ol_loop lines i' (html @ [''<li>'' @ concat c @ ''</li>'']) = Some r'"
        by (auto simp: line_at_def)
      with lt True r show ?thesis
        by (subst ol_loop.simps) (simp add: line_at_def)
    next
      case False
      note nitem = False
      show ?thesis
      proof (cases "strip (lines ! i) = [] \<and> i + 1 < length lines \<and> ol_item (strip (lines ! (i + 1)))")
        case True
        with "1.IH"(2) [of "lines ! i" "lines ! (i + 1)"] lt nitem
        obtain r' where "ol_loop lines (i + 1) html = Some r'"
          by (auto simp: line_at_def)
        with lt nitem True show ?thesis
          by (subst ol_loop.simps) (simp add: line_at_def)
      next
        case False
        with lt nitem show ?thesis
          by (subst ol_loop.simps) (auto simp: line_at_def)
      qed
    qed
  qed
qed

lemma ol_loop_cursor:
  "ol_loop lines i html = Some (i', html') \<Longrightarrow> i \<le> i'"
proof (induction lines i html rule: ol_loop.induct)
  case (1 lines i html)
  show ?case
  proof (cases "i < length lines")
    case False
    with "1.prems" show ?thesis
      by (subst (asm) ol_loop.simps) simp
  next
    case True
    note lt = True
    show ?thesis
    proof (cases "ol_item (strip (lines ! i))")
      case True
      from "1.prems" lt True obtain j c where
        r: "ol_item_loop lines (i + 1)
              [process_inline_formatting (ol_strip_marker (strip (lines ! i)))] = Some (j, c)"
        and l: "ol_loop lines j (html @ [''<li>'' @ concat c @ ''</li>'']) = Some (i', html')"
        by (subst (asm) ol_loop.simps) (auto simp: line_at_def split: bind_splits)
      from ol_item_loop_cursor [OF r] have "i + 1 \<le> j" .
      moreover from "1.IH"(1) [OF lt _ True r _ l] lt have "j \<le> i'"
        by (simp add: line_at_def)
      ultimately show ?thesis by simp
    next
      case False
      note nitem = False
      show ?thesis
      proof (cases "strip (lines ! i) = [] \<and> i + 1 < length lines \<and> ol_item (strip (lines ! (i + 1)))")
        case True
        with "1.prems" lt nitem have l: "ol_loop lines (i + 1) html = Some (i', html')"
          by (subst (asm) ol_loop.simps) (simp add: line_at_def)
        from "1.IH"(2) [of "lines ! i" "lines ! (i + 1)", OF lt _ nitem _ _ _ _ l] lt True
        have "i + 1 \<le> i'" by (simp add: line_at_def)
        then show ?thesis by simp
      next
        case False
        with "1.prems" lt nitem show ?thesis
          by (subst (asm) ol_loop.simps) (auto simp: line_at_def split: if_splits)
      qed
    qed
  qed
qed

lemma ol_loop_advances:
  assumes "i < length lines" and "ol_item (strip (lines ! i))"
    and "ol_loop lines i html = Some (i', html')"
  shows "i < i'"
proof -
  from assms obtain j c where
    r: "ol_item_loop lines (i + 1)
          [process_inline_formatting (ol_strip_marker (strip (lines ! i)))] = Some (j, c)"
    and l: "ol_loop lines j (html @ [''<li>'' @ concat c @ ''</li>'']) = Some (i', html')"
    by (subst (asm) ol_loop.simps) (auto simp: line_at_def split: bind_splits)
  from ol_item_loop_cursor [OF r] ol_loop_cursor [OF l] show ?thesis by simp
qed

subsection \<open>The fragments of a heading and of a table\<close>

text \<open>
  \<^verbatim>\<open>
  level = 0
  for char in line:
      if char == '#':
          level += 1
      else:
          break
  title_text = line[level:].strip()
  title_id = generate_id(title_text)
  html_lines.append(f'<h{level} id="{title_id}">{process_inline_formatting(title_text)}</h{level}>')
  \<close>
\<close>

definition heading_level :: "string \<Rightarrow> nat" where
  "heading_level line = length (takeWhile (\<lambda>char. char = CHR ''#'') line)"

definition heading_html :: "string \<Rightarrow> string" where
  \<open>heading_html line =
     (let level = heading_level line;
          title_text = strip (drop level line);
          title_id = generate_id title_text
      in ''<h'' @ str_nat level @ '' id="'' @ title_id @ ''">'' @
         process_inline_formatting title_text @ ''</h'' @ str_nat level @ ''>'')\<close>

text \<open>\<^verbatim>\<open>[cell.strip() for cell in row.split('|')[1:-1]]\<close>\<close>

definition cells :: "string \<Rightarrow> string list" where
  "cells row = map strip (slice_inner 1 1 (split CHR ''|'' row))"

definition table_row :: "string \<Rightarrow> string \<Rightarrow> string list" where
  "table_row tag row =
     [''<tr>''] @
     map (\<lambda>cell. ''<'' @ tag @ ''>'' @ process_inline_formatting cell @ ''</'' @ tag @ ''>'')
       (cells row) @
     [''</tr>'']"

text \<open>
  What the table branch appends for the collected lines: the header from
  \<^verbatim>\<open>table_lines[0]\<close>, \<^verbatim>\<open>data_start = 2 if len(table_lines) > 1 and '---' in table_lines[1] else 1\<close>,
  then the rows from \<^verbatim>\<open>table_lines[data_start:]\<close>.
\<close>

definition table_html :: "string list \<Rightarrow> string list option" where
  "table_html table_lines =
     (if table_lines \<noteq> [] then
        do {
          thead \<leftarrow>
            (if length table_lines > 0 then
               do {
                 header_row \<leftarrow> line_at table_lines 0;
                 Some ([''<thead>''] @ table_row ''th'' header_row @ [''</thead>''])
               }
             else Some []);
          data_start \<leftarrow>
            (if length table_lines > 1 then
               do {
                 second \<leftarrow> line_at table_lines 1;
                 Some (if contains second ''---'' then 2 else 1)
               }
             else Some (1::nat));
          Some ([''<table>''] @ thead @
                (if length table_lines > data_start
                 then [''<tbody>''] @ concat (map (table_row ''td'') (drop data_start table_lines)) @
                      [''</tbody>'']
                 else []) @
                [''</table>''])
        }
      else Some [])"

subsection \<open>One iteration of the main loop\<close>

text \<open>\<^verbatim>\<open>html_lines.append(fragment); i += 1; continue\<close>\<close>

definition append_next :: "state \<Rightarrow> string \<Rightarrow> state" where
  "append_next st fragment =
     st\<lparr>cursor := cursor st + 1, html_lines := html_lines st @ [fragment]\<rparr>"

definition ul_li :: "string \<Rightarrow> string" where
  "ul_li line = ''<li>'' @ process_inline_formatting (drop 2 (strip line)) @ ''</li>''"

definition quote_p :: "string \<Rightarrow> string" where
  "quote_p line = ''<p>'' @ process_inline_formatting (strip (drop 1 (strip line))) @ ''</p>''"

text \<open>
  The body of \<^verbatim>\<open>while i < len(lines):\<close> in \<^verbatim>\<open>convert_md_to_html_body\<close>, its tests in
  the order of the source: code fence, code mode, one-line math, math delimiter, math
  mode, heading, unordered list, table, ordered list, blockquote, blank line, paragraph.
\<close>

definition block_step :: "string list \<Rightarrow> state \<Rightarrow> state option" where
  \<open>block_step lines st =
     do {
       line \<leftarrow> line_at lines (cursor st);
       if startswith line ''```'' then
         (if \<not> in_code_block st then
            Some (append_next (st\<lparr>in_code_block := True\<rparr>)
                    (''<pre><code class="language-'' @ strip (drop 3 line) @ ''">''))
          else Some (append_next (st\<lparr>in_code_block := False\<rparr>) ''</code></pre>''))
       else if in_code_block st then Some (append_next st (escape_html line))
       else if startswith (strip line) ''$$'' \<and> endswith (strip line) ''$$'' \<and>
               length (strip line) > 4 then
         Some (append_next st
                 (''<div class="math-block">$$'' @ slice_inner 2 2 (strip line) @ ''$$</div>''))
       else if strip line = ''$$'' then
         (if \<not> in_math_block st then
            Some (append_next (st\<lparr>in_math_block := True\<rparr>) ''<div class="math-block">$$'')
          else Some (append_next (st\<lparr>in_math_block := False\<rparr>) ''$$</div>''))
       else if in_math_block st then Some (append_next st line)
       else if startswith line ''#'' then Some (append_next st (heading_html line))
       else if ul_item line then
         do {
           (i, html) \<leftarrow> while_lines ul_item ul_li lines (cursor st) (html_lines st @ [''<ul>'']);
           Some (st\<lparr>cursor := i, html_lines := html @ [''</ul>'']\<rparr>)
         }
       else if table_start line then
         do {
           (i, table_lines) \<leftarrow> while_lines (\<lambda>l. contains l ''|'') strip lines (cursor st) [];
           table \<leftarrow> table_html table_lines;
           Some (st\<lparr>cursor := i, html_lines := html_lines st @ table\<rparr>)
         }
       else if ol_item (strip line) then
         do {
           (i, html) \<leftarrow> ol_loop lines (cursor st) (html_lines st @ [''<ol>'']);
           Some (st\<lparr>cursor := i, html_lines := html @ [''</ol>'']\<rparr>)
         }
       else if startswith (strip line) ''>'' then
         do {
           (i, html) \<leftarrow>
             while_lines (\<lambda>l. startswith (strip l) ''>'') quote_p lines (cursor st)
               (html_lines st @ [''<blockquote>'']);
           Some (st\<lparr>cursor := i, html_lines := html @ [''</blockquote>'']\<rparr>)
         }
       else if strip line = [] then Some (append_next st [])
       else
         do {
           (i, paragraph_lines) \<leftarrow> while_lines paragraph_line (\<lambda>l. l) lines (cursor st) [];
           Some (st\<lparr>cursor := i,
                   html_lines := html_lines st @
                     (if paragraph_lines \<noteq> []
                      then [''<p>'' @ process_inline_formatting (join '' '' paragraph_lines) @ ''</p>'']
                      else [])\<rparr>)
         }
     }\<close>


text \<open>An iteration raises nothing and moves the index forward.\<close>

lemma table_html_total: "\<exists>t. table_html table_lines = Some t"
  by (cases table_lines) (auto simp: table_html_def line_at_def)

lemma takeWhile_first: "i < length lines \<Longrightarrow> P (lines ! i) \<Longrightarrow> 0 < length (takeWhile P (drop i lines))"
  by (simp add: Cons_nth_drop_Suc [symmetric])

lemma length_takeWhile_drop: "i + length (takeWhile P (drop i lines)) \<le> max i (length lines)"
  using length_takeWhile_le [of P "drop i lines"] by simp

lemma block_step_total:
  assumes "cursor st < length lines"
  shows "\<exists>st'. block_step lines st = Some st'"
proof -
  obtain r where "ol_loop lines (cursor st) (html_lines st @ [''<ol>'']) = Some r"
    using ol_loop_total by blast
  moreover obtain t where
    "table_html (map strip (takeWhile (\<lambda>l. contains l ''|'') (drop (cursor st) lines))) = Some t"
    using table_html_total by blast
  ultimately show ?thesis
    using assms
    by (cases r) (simp add: block_step_def line_at_def while_lines_eq)
qed

lemma paragraph_line_fallback:
  "\<not> startswith line ''```'' \<Longrightarrow> \<not> startswith line ''#'' \<Longrightarrow> \<not> ul_item line \<Longrightarrow>
   \<not> ol_item (strip line) \<Longrightarrow> \<not> startswith (strip line) ''>'' \<Longrightarrow> strip line \<noteq> [] \<Longrightarrow>
   paragraph_line line"
  by (simp add: paragraph_line_def ul_item_def)

lemma block_step_advances:
  assumes "cursor st < length lines" and "block_step lines st = Some st'"
  shows "cursor st < cursor st'"
proof -
  let ?line = "lines ! cursor st"
  have ol: "ol_item (strip ?line) \<Longrightarrow>
      ol_loop lines (cursor st) (html_lines st @ [''<ol>'']) = Some (i, h) \<Longrightarrow> cursor st < i" for i h
    using ol_loop_advances [OF assms(1)] by blast
  have tw: "P ?line \<Longrightarrow> 0 < length (takeWhile P (drop (cursor st) lines))" for P
    using takeWhile_first [OF assms(1)] by blast
  have tab: "table_start ?line \<Longrightarrow> contains ?line ''|''"
    by (simp add: table_start_def)
  from assms tw [of ul_item] tw [of "\<lambda>l. contains l ''|''"] tw [of "\<lambda>l. startswith (strip l) ''>''"]
    tw [of paragraph_line] tab paragraph_line_fallback [of ?line]
  show ?thesis
    by (auto simp: block_step_def line_at_def while_lines_eq append_next_def
             split: if_splits bind_splits dest: ol)
qed

subsection \<open>The main loop and the entry points\<close>

definition initial_state :: state where
  "initial_state = \<lparr>cursor = 0, in_code_block = False, in_math_block = False, html_lines = []\<rparr>"

text \<open>\<^verbatim>\<open>while i < len(lines): ...\<close>, then the list \<^verbatim>\<open>html_lines\<close> is the result.\<close>

function convert_loop :: "string list \<Rightarrow> state \<Rightarrow> string list option" where
  "convert_loop lines st =
     (if cursor st < length lines then
        do {
          st' \<leftarrow> block_step lines st;
          convert_loop lines st'
        }
      else Some (html_lines st))"
  by pat_completeness auto
termination
proof (relation "measure (\<lambda>(lines, st). length lines - cursor st)")
  show "wf (measure (\<lambda>(lines, st). length lines - cursor st))" by simp
next
  fix lines :: "string list" and st st' :: state
  assume "cursor st < length lines" and "block_step lines st = Some st'"
  then have "cursor st < cursor st'" by (rule block_step_advances)
  with \<open>cursor st < length lines\<close>
  show "((lines, st'), lines, st) \<in> measure (\<lambda>(lines, st). length lines - cursor st)"
    by simp
qed

declare convert_loop.simps [simp del]

text \<open>
  \<^verbatim>\<open>
  lines = md_content.split('\n')
  ...
  return '\n'.join(html_lines)
  \<close>
\<close>

definition convert_md_to_html_body :: "string \<Rightarrow> string option" where
  "convert_md_to_html_body md_content =
     do {
       html \<leftarrow> convert_loop (split CHR 0x0A md_content) initial_state;
       Some (join [CHR 0x0A] html)
     }"

text \<open>
  \<^verbatim>\<open>markdown_to_html\<close> puts the body between two string literals of the source, the
  fixed document shell of some 280 lines; they are parameters here.
\<close>

definition markdown_to_html :: "string \<Rightarrow> string \<Rightarrow> string \<Rightarrow> string option" where
  "markdown_to_html html_template_start html_template_end md_content =
     do {
       html_body \<leftarrow> convert_md_to_html_body md_content;
       Some (html_template_start @ html_body @ html_template_end)
     }"

section \<open>File-level conversion\<close>

text \<open>
  The files the conversion can see: the content of each existing file, the paths
  whose opening or decoding for reading raises, and the paths whose opening for writing
  raises. A read of a missing file raises \<^verbatim>\<open>FileNotFoundError\<close>; every other failure is
  some other \<^verbatim>\<open>Exception\<close>.
\<close>

datatype io_error = FileNotFoundError | OtherException

record filesystem =
  files :: "string \<rightharpoonup> string"
  unreadable :: "string set"
  unwritable :: "string set"

definition read_file :: "filesystem \<Rightarrow> string \<Rightarrow> io_error + string" where
  "read_file fs path =
     (case files fs path of
        None \<Rightarrow> Inl FileNotFoundError
      | Some content \<Rightarrow> if path \<in> unreadable fs then Inl OtherException else Inr content)"

definition write_file :: "filesystem \<Rightarrow> string \<Rightarrow> string \<Rightarrow> io_error + filesystem" where
  "write_file fs path content =
     (if path \<in> unwritable fs then Inl OtherException
      else Inr (fs\<lparr>files := (files fs)(path \<mapsto> content)\<rparr>))"

text \<open>The console messages, whose texts are not ASCII in the source.\<close>

datatype message =
  SourceNotFound string
  | ReadFailed io_error
  | Generated string
  | WriteFailed io_error

text \<open>
  \<^verbatim>\<open>
  def convert_markdown_to_html(md_file_path, output_html_path=None):
      try:
          with open(md_file_path, 'r', encoding='utf-8') as f:
              md_content = f.read()
      except FileNotFoundError:
          print(...)
          return False
      except Exception as e:
          print(...)
          return False
      if output_html_path is None:
          md_path = Path(md_file_path)
          output_html_path = md_path.parent / f"{md_path.stem}.html"
      html_content = markdown_to_html(md_content)
      try:
          with open(output_html_path, 'w', encoding='utf-8') as f:
              f.write(html_content)
          print(...)
          return True
      except Exception as e:
          print(...)
          return False
  \<close>
  The result is the returned flag, the files afterwards and the messages printed.
  \<open>default_path\<close> stands for the \<^verbatim>\<open>pathlib\<close> computation of the default output path.
  The call of \<^verbatim>\<open>markdown_to_html\<close> is outside both \<^verbatim>\<open>try\<close> blocks: an exception in it
  would leave the function, which is the result \<open>None\<close>.
\<close>

definition convert_markdown_to_html ::
  "(string \<Rightarrow> string) \<Rightarrow> string \<Rightarrow> string \<Rightarrow> filesystem \<Rightarrow> string \<Rightarrow> string option \<Rightarrow>
   (bool \<times> filesystem \<times> message list) option"
where
  "convert_markdown_to_html default_path html_template_start html_template_end fs
     md_file_path output_html_path =
     (case read_file fs md_file_path of
        Inl FileNotFoundError \<Rightarrow> Some (False, fs, [SourceNotFound md_file_path])
      | Inl OtherException \<Rightarrow> Some (False, fs, [ReadFailed OtherException])
      | Inr md_content \<Rightarrow>
          (let output_path =
                 (case output_html_path of
                    None \<Rightarrow> default_path md_file_path
                  | Some path \<Rightarrow> path)
           in do {
             html_content \<leftarrow> markdown_to_html html_template_start html_template_end md_content;
             (case write_file fs output_path html_content of
                Inr fs' \<Rightarrow> Some (True, fs', [Generated output_path])
              | Inl e \<Rightarrow> Some (False, fs, [WriteFailed e]))
           }))"


section \<open>Notions used in the proofs about the inline formatter\<close>






section \<open>Properties of the HTML escaper\<close>


lemma replace_char: "replace [c] new s = concat (map (\<lambda>x. if x = c then new else [x]) s)"
  by (induction s) (simp_all add: replace.simps startswith_def)

lemma escape_html_Cons: "escape_html (x # xs) = escape_html [x] @ escape_html xs"
  by (simp add: escape_html_def replace_char)

lemma escape_html_Nil: "escape_html [] = []"
  by (simp add: escape_html_def replace_char)

lemma escape_html_single_pos: "Suc 0 \<le> length (escape_html [x])"
  by (simp add: escape_html_def replace_char)

lemma escape_html_amp: \<open>escape_html ''&'' = ''&amp;''\<close>
  by (simp add: escape_html_def replace_char)

lemma length_escape_html: "length s \<le> length (escape_html s)"
proof (induction s)
  case Nil
  show ?case by (simp add: escape_html_Nil)
next
  case (Cons x xs)
  have "length (escape_html (x # xs)) = length (escape_html [x]) + length (escape_html xs)"
    by (subst escape_html_Cons) simp
  with Cons escape_html_single_pos [of x] show ?case by simp
qed

lemma length_escape_html_amp:
  "CHR ''&'' \<in> set s \<Longrightarrow> length s < length (escape_html s)"
proof (induction s)
  case Nil
  then show ?case by simp
next
  case (Cons x xs)
  have len: "length (escape_html (x # xs)) = length (escape_html [x]) + length (escape_html xs)"
    by (subst escape_html_Cons) simp
  show ?case
  proof (cases "x = CHR ''&''")
    case True
    with len length_escape_html [of xs] show ?thesis
      by (simp add: escape_html_amp)
  next
    case False
    with Cons have "length xs < length (escape_html xs)" by simp
    with len escape_html_single_pos [of x] show ?thesis by simp
  qed
qed

lemma set_replace_char:
  "set (replace [c] new s) = (set s - {c}) \<union> (if c \<in> set s then set new else {})"
  by (induction s) (auto simp: replace_char)

lemma amp_escape: "special c \<Longrightarrow> c \<in> set s \<Longrightarrow> CHR ''&'' \<in> set (escape_html s)"
  by (simp add: escape_html_def set_replace_char special_def) blast

lemma escape_html_no_lt: "CHR ''<'' \<notin> set (escape_html s)"
  by (simp add: escape_html_def set_replace_char)

text \<open>
  Claim C8: HTML escaping is not idempotent. For every string that contains at least one
  of the five special characters (ampersand, less-than, greater-than, double quote,
  single quote), escaping it twice differs from escaping it once.
\<close>

theorem escape_html_not_idempotent:
  "\<exists>c \<in> set s. special c \<Longrightarrow> escape_html (escape_html s) \<noteq> escape_html s"
proof -
  assume "\<exists>c \<in> set s. special c"
  then have "CHR ''&'' \<in> set (escape_html s)" by (auto intro: amp_escape)
  then have "length (escape_html s) < length (escape_html (escape_html s))"
    by (rule length_escape_html_amp)
  then show ?thesis by auto
qed

theorem escape_html_not_idempotent_witness:
  \<open>(\<exists>c \<in> set ''a<b''. special c) \<and> escape_html (escape_html ''a<b'') \<noteq> escape_html ''a<b''\<close>
proof -
  have h: \<open>\<exists>c \<in> set ''a<b''. special c\<close> by (simp add: special_def)
  from escape_html_not_idempotent [OF h] h show ?thesis by simp
qed

section \<open>Totality of the block classifier\<close>






lemma convert_loop_total: "\<exists>html. convert_loop lines st = Some html"
proof (induction lines st rule: convert_loop.induct)
  case (1 lines st)
  show ?case
  proof (cases "cursor st < length lines")
    case True
    then obtain st' where s: "block_step lines st = Some st'"
      using block_step_total by blast
    from "1.IH" [OF True s] obtain html where "convert_loop lines st' = Some html" by blast
    with True s show ?thesis
      by (subst convert_loop.simps) simp
  next
    case False
    then show ?thesis
      by (subst convert_loop.simps) simp
  qed
qed







lemma classifier_body_total: "\<exists>body. convert_md_to_html_body md_content = Some body"
proof -
  obtain html where "convert_loop (split CHR 0x0A md_content) initial_state = Some html"
    using convert_loop_total by blast
  then show ?thesis
    by (simp add: convert_md_to_html_body_def)
qed



section \<open>Fenced code blocks\<close>

lemma code_mode_rest:
  "in_code_block st \<Longrightarrow>
   (\<forall>j. cursor st \<le> j \<and> j < length lines \<longrightarrow> \<not> startswith (lines ! j) ''```'') \<Longrightarrow>
   convert_loop lines st = Some (html_lines st @ map escape_html (drop (cursor st) lines))"
proof (induction lines st rule: convert_loop.induct)
  case (1 lines st)
  show ?case
  proof (cases "cursor st < length lines")
    case True
    let ?st' = "append_next st (escape_html (lines ! cursor st))"
    from True "1.prems" have s: "block_step lines st = Some ?st'"
      by (simp add: block_step_def line_at_def)
    have "convert_loop lines ?st' =
        Some (html_lines ?st' @ map escape_html (drop (cursor ?st') lines))"
      using "1.prems" by (intro "1.IH" [OF True s]) (simp_all add: append_next_def)
    with True s show ?thesis
      by (subst convert_loop.simps)
         (simp add: append_next_def Cons_nth_drop_Suc [symmetric])
  next
    case False
    then show ?thesis
      by (subst convert_loop.simps) simp
  qed
qed

text \<open>
  Claim C10: when the main loop, outside code mode, is at a line that starts with three
  backticks and no later line starts with three backticks, then every remaining line is
  HTML-escaped and emitted as it is behind the opening fragment, and no closing fragment
  \<^verbatim>\<open></code></pre>\<close> is emitted: the body ends inside the code block.
\<close>

theorem unterminated_fence:
  assumes "cursor st < length lines" and "\<not> in_code_block st"
    and "startswith (lines ! cursor st) ''```''"
    and "\<forall>j. cursor st < j \<and> j < length lines \<longrightarrow> \<not> startswith (lines ! j) ''```''"
  shows \<open>convert_loop lines st =
           Some (html_lines st @
                 [''<pre><code class="language-'' @ strip (drop 3 (lines ! cursor st)) @ ''">''] @
                 map escape_html (drop (cursor st + 1) lines)) \<and>
         ''</code></pre>'' \<notin> set (map escape_html (drop (cursor st + 1) lines))\<close>
proof
  let ?st' = \<open>append_next (st\<lparr>in_code_block := True\<rparr>)
      (''<pre><code class="language-'' @ strip (drop 3 (lines ! cursor st)) @ ''">'')\<close>
  from assms have s: "block_step lines st = Some ?st'"
    by (simp add: block_step_def line_at_def)
  have "convert_loop lines ?st' =
      Some (html_lines ?st' @ map escape_html (drop (cursor ?st') lines))"
    using assms(4) by (intro code_mode_rest) (simp_all add: append_next_def)
  with assms(1) s show \<open>convert_loop lines st =
           Some (html_lines st @
                 [''<pre><code class="language-'' @ strip (drop 3 (lines ! cursor st)) @ ''">''] @
                 map escape_html (drop (cursor st + 1) lines))\<close>
    by (subst convert_loop.simps) (simp add: append_next_def)
next
  show "''</code></pre>'' \<notin> set (map escape_html (drop (cursor st + 1) lines))"
  proof
    assume "''</code></pre>'' \<in> set (map escape_html (drop (cursor st + 1) lines))"
    then obtain l where "escape_html l = ''</code></pre>''" by auto
    then have "CHR ''<'' \<in> set (escape_html l)" by simp
    with escape_html_no_lt show False by blast
  qed
qed

theorem unterminated_fence_witness:
  \<open>cursor initial_state < length [''```py'', ''a<b'', ''# c''] \<and>
   \<not> in_code_block initial_state \<and>
   startswith ([''```py'', ''a<b'', ''# c''] ! cursor initial_state) ''```'' \<and>
   \<not> (\<exists>j. cursor initial_state < j \<and> j < length [''```py'', ''a<b'', ''# c''] \<and>
      startswith ([''```py'', ''a<b'', ''# c''] ! j) ''```'') \<and>
   convert_loop [''```py'', ''a<b'', ''# c''] initial_state =
     Some [''<pre><code class="language-py">'', ''a&lt;b'', ''# c'']\<close>
proof -
  let ?lines = \<open>[''```py'', ''a<b'', ''# c'']\<close>
  have h1: "cursor initial_state < length ?lines" by (simp add: initial_state_def)
  have h2: "\<not> in_code_block initial_state" by (simp add: initial_state_def)
  have h3: "startswith (?lines ! cursor initial_state) ''```''"
    by (simp add: initial_state_def startswith_def)
  have h4: "\<forall>j. cursor initial_state < j \<and> j < length ?lines \<longrightarrow>
      \<not> startswith (?lines ! j) ''```''"
    by (auto simp: initial_state_def startswith_def less_Suc_eq numeral_3_eq_3)
  from h4 have h4': "\<not> (\<exists>j. cursor initial_state < j \<and> j < length ?lines \<and>
      startswith (?lines ! j) ''```'')"
    by blast
  from unterminated_fence [OF h1 h2 h3 h4] h1 h2 h3 h4' show ?thesis
    by (simp add: initial_state_def strip_def lstrip_def rstrip_def isspace_def
          escape_html_def replace_char)
qed

section \<open>The success flag of the file-level conversion\<close>

text \<open>
  Claim C9: the file-level conversion returns \<open>False\<close> when the source cannot be read,
  and then writes no file; when the source is read it returns \<open>False\<close> if the
  destination cannot be written and \<open>True\<close>, with the destination written, if it can.
  No exception leaves the function.
\<close>

theorem file_conversion_flag:
  "(\<forall>e. read_file fs md_file_path = Inl e \<longrightarrow>
      (\<exists>msgs. convert_markdown_to_html default_path ts te fs md_file_path output_html_path =
         Some (False, fs, msgs))) \<and>
   (\<forall>md_content. read_file fs md_file_path = Inr md_content \<longrightarrow>
      (\<exists>html_content. markdown_to_html ts te md_content = Some html_content \<and>
         (case write_file fs
                 (case output_html_path of None \<Rightarrow> default_path md_file_path | Some path \<Rightarrow> path)
                 html_content of
            Inl e \<Rightarrow>
              \<exists>msgs. convert_markdown_to_html default_path ts te fs md_file_path output_html_path =
                Some (False, fs, msgs)
          | Inr fs' \<Rightarrow>
              \<exists>msgs. convert_markdown_to_html default_path ts te fs md_file_path output_html_path =
                Some (True, fs', msgs))))"
proof (intro conjI allI impI)
  fix e
  assume "read_file fs md_file_path = Inl e"
  then show "\<exists>msgs. convert_markdown_to_html default_path ts te fs md_file_path output_html_path =
         Some (False, fs, msgs)"
    by (cases e) (simp_all add: convert_markdown_to_html_def)
next
  fix md_content
  assume r: "read_file fs md_file_path = Inr md_content"
  obtain body where "convert_md_to_html_body md_content = Some body"
    using classifier_body_total by blast
  then have m: "markdown_to_html ts te md_content = Some (ts @ body @ te)"
    by (simp add: markdown_to_html_def)
  show "\<exists>html_content. markdown_to_html ts te md_content = Some html_content \<and>
         (case write_file fs
                 (case output_html_path of None \<Rightarrow> default_path md_file_path | Some path \<Rightarrow> path)
                 html_content of
            Inl e \<Rightarrow>
              \<exists>msgs. convert_markdown_to_html default_path ts te fs md_file_path output_html_path =
                Some (False, fs, msgs)
          | Inr fs' \<Rightarrow>
              \<exists>msgs. convert_markdown_to_html default_path ts te fs md_file_path output_html_path =
                Some (True, fs', msgs))"
    using r m by (auto simp: convert_markdown_to_html_def split: sum.splits)
qed


theorem file_conversion_flag_witness:
  \<open>read_file \<lparr>files = [''a.md'' \<mapsto> ''# T''], unreadable = {}, unwritable = {''ro.html''}\<rparr>
      ''missing.md'' = Inl FileNotFoundError \<and>
   (\<exists>msgs. convert_markdown_to_html (\<lambda>p. p @ ''.html'') ''<body>'' ''</body>''
        \<lparr>files = [''a.md'' \<mapsto> ''# T''], unreadable = {}, unwritable = {''ro.html''}\<rparr>
        ''missing.md'' None =
      Some (False, \<lparr>files = [''a.md'' \<mapsto> ''# T''], unreadable = {}, unwritable = {''ro.html''}\<rparr>,
            msgs)) \<and>
   read_file \<lparr>files = [''a.md'' \<mapsto> ''# T''], unreadable = {}, unwritable = {''ro.html''}\<rparr>
      ''a.md'' = Inr ''# T'' \<and>
   (\<exists>msgs. convert_markdown_to_html (\<lambda>p. p @ ''.html'') ''<body>'' ''</body>''
        \<lparr>files = [''a.md'' \<mapsto> ''# T''], unreadable = {}, unwritable = {''ro.html''}\<rparr>
        ''a.md'' (Some ''ro.html'') =
      Some (False, \<lparr>files = [''a.md'' \<mapsto> ''# T''], unreadable = {}, unwritable = {''ro.html''}\<rparr>,
            msgs)) \<and>
   (\<exists>msgs html. convert_markdown_to_html (\<lambda>p. p @ ''.html'') ''<body>'' ''</body>''
        \<lparr>files = [''a.md'' \<mapsto> ''# T''], unreadable = {}, unwritable = {''ro.html''}\<rparr>
        ''a.md'' None =
      Some (True,
            \<lparr>files = [''a.md'' \<mapsto> ''# T'', ''a.md.html'' \<mapsto> html], unreadable = {},
               unwritable = {''ro.html''}\<rparr>,
            msgs))\<close>
proof -
  let ?fs = \<open>\<lparr>files = [''a.md'' \<mapsto> ''# T''], unreadable = {}, unwritable = {''ro.html''}\<rparr>\<close>
  let ?dp = \<open>\<lambda>p::string. p @ ''.html''\<close>
  have r1: \<open>read_file ?fs ''missing.md'' = Inl FileNotFoundError\<close>
    by (simp add: read_file_def)
  have r2: \<open>read_file ?fs ''a.md'' = Inr ''# T''\<close>
    by (simp add: read_file_def)
  from file_conversion_flag [of ?fs \<open>''missing.md''\<close> ?dp \<open>''<body>''\<close> \<open>''</body>''\<close> None] r1
  have c1: \<open>\<exists>msgs. convert_markdown_to_html ?dp ''<body>'' ''</body>'' ?fs ''missing.md'' None =
      Some (False, ?fs, msgs)\<close>
    by blast
  from file_conversion_flag [of ?fs \<open>''a.md''\<close> ?dp \<open>''<body>''\<close> \<open>''</body>''\<close> \<open>Some ''ro.html''\<close>] r2
  have c2: \<open>\<exists>msgs. convert_markdown_to_html ?dp ''<body>'' ''</body>'' ?fs ''a.md'' (Some ''ro.html'') =
      Some (False, ?fs, msgs)\<close>
    by (auto simp: write_file_def)
  from file_conversion_flag [of ?fs \<open>''a.md''\<close> ?dp \<open>''<body>''\<close> \<open>''</body>''\<close> None] r2
  have c3: \<open>\<exists>msgs html. convert_markdown_to_html ?dp ''<body>'' ''</body>'' ?fs ''a.md'' None =
      Some (True, \<lparr>files = [''a.md'' \<mapsto> ''# T'', ''a.md.html'' \<mapsto> html], unreadable = {},
               unwritable = {''ro.html''}\<rparr>, msgs)\<close>
    by (auto simp: write_file_def)
  from r1 c1 r2 c2 c3 show ?thesis by blast
qed


section \<open>Headings\<close>

lemma block_step_heading:
  assumes "cursor st < length lines" and "\<not> in_code_block st" and "\<not> in_math_block st"
    and "\<not> startswith (lines ! cursor st) ''```''"
    and "\<not> startswith (strip (lines ! cursor st)) ''$$''"
    and "startswith (lines ! cursor st) ''#''"
  shows "block_step lines st = Some (append_next st (heading_html (lines ! cursor st)))"
proof -
  from assms(5) have "strip (lines ! cursor st) \<noteq> ''$$''"
    by (auto simp: startswith_def)
  with assms show ?thesis
    unfolding block_step_def line_at_def by simp
qed


lemma rstrip_Cons: "\<not> isspace c \<Longrightarrow> rstrip (c # cs) = c # rstrip cs"
  by (simp add: rstrip_def dropWhile_append3)

lemma strip_Cons: "\<not> isspace c \<Longrightarrow> strip (c # cs) = c # rstrip cs"
  by (simp add: strip_def lstrip_def rstrip_Cons)

lemma takeWhile_replicate_append:
  "P x \<Longrightarrow> takeWhile P (replicate k x @ rest) = replicate k x @ takeWhile P rest"
  by (induction k) simp_all

lemma hash_line:
  assumes "0 < n" and "\<not> startswith rest ''#''"
  shows "heading_level (replicate n (CHR ''#'') @ rest) = n"
    and "startswith (replicate n (CHR ''#'') @ rest) ''#''"
    and "\<not> startswith (replicate n (CHR ''#'') @ rest) ''```''"
    and "\<not> startswith (strip (replicate n (CHR ''#'') @ rest)) ''$$''"
proof -
  from assms(2) have "takeWhile (\<lambda>char. char = CHR ''#'') rest = []"
    by (cases rest) (simp_all add: startswith_def)
  then show "heading_level (replicate n (CHR ''#'') @ rest) = n"
    by (simp add: heading_level_def takeWhile_replicate_append)
  from assms(1) obtain m where n: "n = Suc m" by (cases n) simp_all
  have sp: "\<not> isspace (CHR ''#'')" by (simp add: isspace_def)
  show "startswith (replicate n (CHR ''#'') @ rest) ''#''"
    and "\<not> startswith (replicate n (CHR ''#'') @ rest) ''```''"
    by (simp_all add: n startswith_def)
  show "\<not> startswith (strip (replicate n (CHR ''#'') @ rest)) ''$$''"
    by (simp add: n strip_Cons [OF sp] startswith_def)
qed

text \<open>
  Claim C7, as the source has it: a line whose first character is \<^verbatim>\<open>#\<close>, met by the main
  loop outside code mode and outside math mode, gives exactly one heading fragment and
  moves the index by one. The level is the number of leading \<^verbatim>\<open>#\<close> characters,
  whatever it is (no cap at 6); the title is the rest of the line, stripped and
  inline-formatted; the id is the slug of the stripped rest. The witness has a heading of
  level 7 and the document \<^verbatim>\<open># Title\<close>.
\<close>

theorem heading_fragment:
  assumes "cursor st < length lines" and "\<not> in_code_block st" and "\<not> in_math_block st"
    and "lines ! cursor st = replicate n (CHR ''#'') @ rest"
    and "0 < n" and "\<not> startswith rest ''#''"
  shows \<open>block_step lines st =
           Some (st\<lparr>cursor := cursor st + 1,
                   html_lines := html_lines st @
                     [''<h'' @ str_nat n @ '' id="'' @ generate_id (strip rest) @ ''">'' @
                      process_inline_formatting (strip rest) @ ''</h'' @ str_nat n @ ''>'']\<rparr>)\<close>
proof -
  note h = hash_line [OF assms(5,6)]
  have "block_step lines st = Some (append_next st (heading_html (lines ! cursor st)))"
    using assms(1-3) h(2-4) by (intro block_step_heading) (simp_all add: assms(4))
  moreover have \<open>heading_html (lines ! cursor st) =
      ''<h'' @ str_nat n @ '' id="'' @ generate_id (strip rest) @ ''">'' @
      process_inline_formatting (strip rest) @ ''</h'' @ str_nat n @ ''>''\<close>
    unfolding heading_html_def assms(4) h(1) Let_def by simp
  ultimately show ?thesis
    by (simp add: append_next_def)
qed

theorem heading_fragment_witness:
  \<open>cursor initial_state < length [''####### a *b*''] \<and>
   \<not> in_code_block initial_state \<and> \<not> in_math_block initial_state \<and>
   [''####### a *b*''] ! cursor initial_state = replicate 7 (CHR ''#'') @ '' a *b*'' \<and>
   \<not> startswith '' a *b*'' ''#'' \<and>
   block_step [''####### a *b*''] initial_state =
     Some \<lparr>cursor = 1, in_code_block = False, in_math_block = False,
          html_lines = [''<h7 id="a-b">a <em>b</em></h7>'']\<rparr> \<and>
   convert_md_to_html_body ''# Title'' = Some ''<h1 id="title">Title</h1>''\<close>
proof -
  let ?lines = \<open>[''####### a *b*'']\<close>
  have h1: "cursor initial_state < length ?lines" by (simp add: initial_state_def)
  have h2: "\<not> in_code_block initial_state" by (simp add: initial_state_def)
  have h3: "\<not> in_math_block initial_state" by (simp add: initial_state_def)
  have h4: \<open>?lines ! cursor initial_state = replicate 7 (CHR ''#'') @ '' a *b*''\<close>
    by (simp add: initial_state_def numeral_eq_Suc)
  have h5: "0 < (7::nat)" by simp
  have h6: \<open>\<not> startswith '' a *b*'' ''#''\<close> by (simp add: startswith_def)
  have e0: \<open>strip '' a *b*'' = ''a *b*''\<close>
    by (simp add: strip_def lstrip_def rstrip_def isspace_def)
  have e1: \<open>generate_id ''a *b*'' = ''a-b''\<close>
    by (simp add: generate_id_def re_sub.simps non_word_match_def isword_def is_cjk_def
        hyphens_match_def strip_chars_def lower_def lower_char_def startswith_def Let_def)
  have e2: \<open>process_inline_formatting ''a *b*'' = ''a <em>b</em>''\<close> by code_simp
  have e3: \<open>str_nat 7 = ''7''\<close> by simp
  have e4: \<open>convert_md_to_html_body ''# Title'' = Some ''<h1 id="title">Title</h1>''\<close>
    by code_simp
  from heading_fragment [OF h1 h2 h3 h4 h5 h6] h1 h2 h3 h4 h6 e4 show ?thesis
    by (simp add: e0 e1 e2 e3 initial_state_def)
qed

text \<open>
  The claim as stated speaks of every line that starts with \<^verbatim>\<open>#\<close>. Inside a fenced code
  block such a line is escaped and emitted as code, and no heading fragment is produced.
\<close>

theorem heading_in_code_block_counterexample:
  \<open>convert_md_to_html_body (''```'' @ [CHR 0x0A] @ ''# Title'') =
     Some (''<pre><code class="language-">'' @ [CHR 0x0A] @ ''# Title'')\<close>
  by code_simp

section \<open>Table runs\<close>

text \<open>
  Claim C2 says that every line of a table run starts and ends with a pipe. The loop that
  collects the run only asks for a pipe somewhere in the line: here the second line is
  taken into the table although no pipe bounds it, and \<^verbatim>\<open>split('|')[1:-1]\<close> then drops
  its first and last cell, \<^verbatim>\<open>x\<close> and \<^verbatim>\<open>z\<close>.
\<close>

theorem table_run_unbounded_row:
  \<open>convert_md_to_html_body (''| A | B |'' @ [CHR 0x0A] @ ''x | y | z'') =
     Some (join [CHR 0x0A]
       [''<table>'', ''<thead>'', ''<tr>'', ''<th>A</th>'', ''<th>B</th>'', ''</tr>'', ''</thead>'',
        ''<tbody>'', ''<tr>'', ''<td>y</td>'', ''</tr>'', ''</tbody>'', ''</table>''])\<close>
  by code_simp

section \<open>Paragraph runs\<close>

text \<open>
  Claim C3 says that a paragraph run ends at the first line that matches any block
  marker. The paragraph loop tests neither the table marker nor the math markers: a
  table row and the lines of a math block that follow paragraph text directly become
  part of the paragraph.
\<close>

theorem paragraph_run_takes_table_and_math:
  \<open>convert_md_to_html_body (''text'' @ [CHR 0x0A] @ ''| a | b |'') = Some ''<p>text | a | b |</p>'' \<and>
   convert_md_to_html_body (''text'' @ [CHR 0x0A] @ ''$$'' @ [CHR 0x0A] @ ''x'' @ [CHR 0x0A] @ ''$$'') =
     Some ''<p>text $$ x $$</p>''\<close>
  by code_simp

section \<open>Ordered lists\<close>

lemma ol_item_loop_eq:
  "ol_item_loop lines i item_content =
     Some (i + length (takeWhile (\<lambda>l. strip l = [] \<or> startswith l ''   '' \<or> startswith l [CHR 0x09])
                         (drop i lines)),
           item_content @
           map (\<lambda>l. ol_continuation (strip l))
             (filter (\<lambda>l. strip l \<noteq> [])
                (takeWhile (\<lambda>l. strip l = [] \<or> startswith l ''   '' \<or> startswith l [CHR 0x09])
                   (drop i lines))))"
proof (induction lines i item_content rule: ol_item_loop.induct)
  case (1 lines i item_content)
  show ?case
  proof (cases "i < length lines")
    case True
    then have d: "drop i lines = lines ! i # drop (i + 1) lines"
      by (simp add: Cons_nth_drop_Suc)
    consider (blank) "strip (lines ! i) = []"
      | (indented) "strip (lines ! i) \<noteq> []"
          "startswith (lines ! i) ''   '' \<or> startswith (lines ! i) [CHR 0x09]"
      | (other) "strip (lines ! i) \<noteq> []"
          "\<not> (startswith (lines ! i) ''   '' \<or> startswith (lines ! i) [CHR 0x09])"
      by blast
    then show ?thesis
    proof cases
      case blank
      with True "1.IH"(1) [of "lines ! i"] d show ?thesis
        by (subst ol_item_loop.simps) (simp add: line_at_def)
    next
      case indented
      with True "1.IH"(2) [of "lines ! i"] d show ?thesis
        by (subst ol_item_loop.simps) (simp add: line_at_def)
    next
      case other
      with True d show ?thesis
        by (subst ol_item_loop.simps) (simp add: line_at_def)
    qed
  next
    case False
    then show ?thesis
      by (subst ol_item_loop.simps) simp
  qed
qed

lemma ol_loop_stop:
  assumes "j < length lines \<longrightarrow> strip (lines ! j) \<noteq> [] \<and> \<not> ol_item (strip (lines ! j))"
  shows "ol_loop lines j html = Some (j, html)"
  using assms by (subst ol_loop.simps) (simp add: line_at_def)

lemma takeWhile_stop:
  assumes "i + length (takeWhile P (drop i lines)) < length lines"
  shows "\<not> P (lines ! (i + length (takeWhile P (drop i lines))))"
proof -
  from assms have "length (takeWhile P (drop i lines)) < length (drop i lines)" by simp
  then have "\<not> P (drop i lines ! length (takeWhile P (drop i lines)))"
    by (rule nth_length_takeWhile)
  with assms show ?thesis by simp
qed

text \<open>
  Claim C6, as the source has it: behind an ordered-list item the content loop takes the
  whole run of blank lines and indented lines (three spaces or a tab), whatever follows
  a blank line: blank lines are skipped, every indented line is appended to the item.
  The list goes on when the line behind that run is another ordered-list item, and ends
  there otherwise.
\<close>

theorem ordered_list_blank_lines:
  assumes "i < length lines" and "ol_item (strip (lines ! i))"
    and "run = takeWhile (\<lambda>l. strip l = [] \<or> startswith l ''   '' \<or> startswith l [CHR 0x09])
                 (drop (i + 1) lines)"
    and "j = i + 1 + length run"
    and "li = ''<li>'' @ process_inline_formatting (ol_strip_marker (strip (lines ! i))) @
              concat (map (\<lambda>l. ol_continuation (strip l)) (filter (\<lambda>l. strip l \<noteq> []) run)) @
              ''</li>''"
  shows "ol_loop lines i html =
           (if j < length lines \<and> ol_item (strip (lines ! j))
            then ol_loop lines j (html @ [li])
            else Some (j, html @ [li]))"
proof -
  from assms have step: "ol_loop lines i html = ol_loop lines j (html @ [li])"
    by (subst ol_loop.simps) (simp add: line_at_def ol_item_loop_eq)
  show ?thesis
  proof (cases "j < length lines \<and> ol_item (strip (lines ! j))")
    case True
    with step show ?thesis by simp
  next
    case False
    have "j < length lines \<longrightarrow> strip (lines ! j) \<noteq> []"
      using takeWhile_stop [of "i + 1" _ lines] assms(3,4) by auto
    with False have "ol_loop lines j (html @ [li]) = Some (j, html @ [li])"
      by (intro ol_loop_stop) blast
    with step False show ?thesis by simp
  qed
qed

theorem ordered_list_blank_lines_witness:
  \<open>0 < length [''1. a'', '''', ''   b'', '''', ''2. c'', ''x''] \<and>
   ol_item (strip ([''1. a'', '''', ''   b'', '''', ''2. c'', ''x''] ! 0)) \<and>
   takeWhile (\<lambda>l. strip l = [] \<or> startswith l ''   '' \<or> startswith l [CHR 0x09])
     (drop (0 + 1) [''1. a'', '''', ''   b'', '''', ''2. c'', ''x'']) = ['''', ''   b'', ''''] \<and>
   ol_loop [''1. a'', '''', ''   b'', '''', ''2. c'', ''x''] 0 [''<ol>''] =
     ol_loop [''1. a'', '''', ''   b'', '''', ''2. c'', ''x''] 4 [''<ol>'', ''<li>ab</li>''] \<and>
   ol_loop [''1. a'', '''', ''   b'', '''', ''2. c'', ''x''] 4 [''<ol>'', ''<li>ab</li>''] =
     Some (5, [''<ol>'', ''<li>ab</li>'', ''<li>c</li>''])\<close>
proof -
  let ?L = \<open>[''1. a'', '''', ''   b'', '''', ''2. c'', ''x'']\<close>
  let ?P = \<open>\<lambda>l. strip l = [] \<or> startswith l ''   '' \<or> startswith l [CHR 0x09]\<close>
  have h1: "0 < length ?L" by simp
  have h2: "ol_item (strip (?L ! 0))" by code_simp
  have r0: \<open>takeWhile ?P (drop (0 + 1) ?L) = ['''', ''   b'', '''']\<close> by code_simp
  have i0: \<open>process_inline_formatting (ol_strip_marker (strip (?L ! 0))) = ''a''\<close> by code_simp
  have c0: \<open>ol_continuation (strip ''   b'') = ''b''\<close> by code_simp
  have s0: \<open>strip '''' = []\<close> by code_simp
  have s1: \<open>strip ''   b'' \<noteq> []\<close> by code_simp
  have n4: "ol_item (strip (?L ! 4))" by code_simp
  have four: "Suc (Suc (Suc (Suc 0))) = 4" by simp
  have a: \<open>ol_loop ?L 0 [''<ol>''] = ol_loop ?L 4 [''<ol>'', ''<li>ab</li>'']\<close>
    using ordered_list_blank_lines [OF h1 h2 refl refl refl, of \<open>[''<ol>'']\<close>] n4
    by (simp only: r0 i0) (simp add: c0 s0 s1 four)
  have h1': "4 < length ?L" by simp
  have r4: \<open>takeWhile ?P (drop (4 + 1) ?L) = []\<close> by code_simp
  have i4: \<open>process_inline_formatting (ol_strip_marker (strip (?L ! 4))) = ''c''\<close> by code_simp
  have n5: "\<not> ol_item (strip (?L ! 5))" by code_simp
  have b: \<open>ol_loop ?L 4 [''<ol>'', ''<li>ab</li>''] = Some (5, [''<ol>'', ''<li>ab</li>'', ''<li>c</li>''])\<close>
    using ordered_list_blank_lines [OF h1' n4 refl refl refl, of \<open>[''<ol>'', ''<li>ab</li>'']\<close>] n5
    by (simp only: r4 i4) simp
  from h1 h2 r0 a b show ?thesis by blast
qed

text \<open>
  Claim C6 as stated fails: a blank line followed by an indented line, or by another
  blank line, does not end the list.
\<close>

theorem ordered_list_blank_counterexample:
  \<open>convert_md_to_html_body
      (''1. a'' @ [CHR 0x0A] @ '''' @ [CHR 0x0A] @ ''   b'' @ [CHR 0x0A] @ ''2. c'') =
     Some (join [CHR 0x0A] [''<ol>'', ''<li>ab</li>'', ''<li>c</li>'', ''</ol>'']) \<and>
   convert_md_to_html_body
      (''1. a'' @ [CHR 0x0A] @ '''' @ [CHR 0x0A] @ '''' @ [CHR 0x0A] @ ''2. c'') =
     Some (join [CHR 0x0A] [''<ol>'', ''<li>a</li>'', ''<li>c</li>'', ''</ol>''])\<close>
  by code_simp


section \<open>Substitutions keep the text they do not match\<close>

















lemma re_sub_Nil: "m [] = None \<Longrightarrow> re_sub m repl [] = []"
  by (simp add: re_sub.simps)


















declare str_nat.simps [simp del]




































section \<open>Math protection round trip\<close>










text \<open>
  Placeholder text behind a later span can make an earlier restoration destroy the token
  of that span: here the second span \<^verbatim>\<open>$c+d$\<close> is lost.
\<close>

lemma math_span_lost_example:
  \<open>process_inline_formatting ''$a+b$ $c+d$MATH_PLACEHOLDER_0__'' =
     [CHR 0x5C, CHR ''(''] @ ''a+b'' @ [CHR 0x5C, CHR '')''] @ '' __MATH_PLACEHOLDER_1'' @
     [CHR 0x5C, CHR ''(''] @ ''a+b'' @ [CHR 0x5C, CHR '')'']\<close>
  by code_simp

end
